theory Spec2Isabelle
  imports Main
begin

section \<open>The street renderer of \<open>street_art.py\<close>\<close>

text \<open>
  The program reads one line, parses it into street elements (buildings, parks, empty
  lots) and prints a bordered ASCII picture. The embedding follows the source function by
  function.

  \<^item> A Python integer is an \<open>int\<close>; a Python string is a \<open>string\<close> (a list of
    8-bit characters, so only the Latin-1 part of Unicode is covered). A brick, a foliage
    glyph and a trash pattern are strings, as the parser stores them.
  \<^item> An exception is a value: a computation returns \<open>Inl e\<close> when the source raises
    \<open>e\<close> and \<open>Inr v\<close> when it returns \<open>v\<close>.
  \<^item> The character-filling helpers recurse on \<open>width - 1\<close> until \<open>width == 0\<close>, which a
    negative width never reaches. They are partial functions into \<open>option\<close>: \<open>None\<close>
    means that the recursion has no end (the interpreter then gives up with a
    RecursionError). The interpreter's own limits on finite computations (recursion depth,
    digits of an integer literal) are not part of the model.
  \<^item> Standard output is the list of the lines that \<open>print\<close> has written so far. The
    prompt of \<open>input\<close> is not a line of the picture and is left out.
\<close>

subsection \<open>Errors and results\<close>

datatype error = IndexError | ValueError | ZeroDivisionError

type_synonym 'a result = "(error + 'a) option"

definition returns :: "'a option \<Rightarrow> 'a result" where
  "returns m = map_option Inr m"

subsection \<open>The three element classes\<close>

text \<open>
  \<open>Building(width, height, brick)\<close>, \<open>Park(width, fol)\<close> and \<open>EmptyLot(width, trash)\<close>.
  The constructors of \<open>Park\<close> and \<open>EmptyLot\<close> store the fixed heights 5 and 1.
\<close>

datatype element =
    Building int int string
  | Park int string
  | EmptyLot int string

fun width :: "element \<Rightarrow> int" where
  "width (Building w h brick) = w"
| "width (Park w fol) = w"
| "width (EmptyLot w trash) = w"

fun height :: "element \<Rightarrow> int" where
  "height (Building w h brick) = h"
| "height (Park w fol) = 5"
| "height (EmptyLot w trash) = 1"

subsubsection \<open>Building\<close>

partial_function (option) single_line :: "int \<Rightarrow> string \<Rightarrow> string option" where
  "single_line w filling =
     (if w = 0 then Some []
      else Option.bind (single_line (w - 1) filling) (\<lambda>rest. Some (filling @ rest)))"

declare single_line.simps [code]

subsubsection \<open>Park\<close>

partial_function (option) fill_line :: "int \<Rightarrow> string \<Rightarrow> string option" where
  "fill_line w filling =
     (if w = 0 then Some []
      else Option.bind (fill_line (w - 1) filling) (\<lambda>rest. Some (filling @ rest)))"

declare fill_line.simps [code]

definition tree_line :: "int \<Rightarrow> int \<Rightarrow> string \<Rightarrow> string option" where
  "tree_line w middle filling =
     (let space_width = (w - middle) div 2 in
      Option.bind (fill_line space_width [CHR '' ''])
        (\<lambda>space. Option.bind (fill_line middle filling)
          (\<lambda>tree_part. Some (space @ tree_part @ space))))"

subsubsection \<open>EmptyLot\<close>

partial_function (option) empty_line :: "int \<Rightarrow> string option" where
  "empty_line w =
     (if w = 0 then Some []
      else Option.bind (empty_line (w - 1)) (\<lambda>rest. Some (CHR '' '' # rest)))"

declare empty_line.simps [code]

fun change_spaces :: "string \<Rightarrow> string" where
  "change_spaces [] = []"
| "change_spaces (c # rest) =
     (if c = CHR ''_'' then CHR '' '' # change_spaces rest else c # change_spaces rest)"

text \<open>
  Python's slice \<open>s[0:n]\<close>: a negative \<open>n\<close> counts from the end of the string.
\<close>

definition slice_to :: "string \<Rightarrow> int \<Rightarrow> string" where
  "slice_to s n = (if n < 0 then take (length s - nat (- n)) s else take (nat n) s)"

text \<open>
  \<open>trash_to_width\<close> reads \<open>self.width()\<close>, here its first argument. The division
  \<open>self.width() // len(trash)\<close> raises when the pattern is empty.
\<close>

definition trash_to_width :: "int \<Rightarrow> string \<Rightarrow> error + string" where
  "trash_to_width w trash =
     (if w \<le> int (length trash) then Inr (slice_to trash w)
      else if length trash = 0 then Inl ZeroDivisionError
      else
        (let times = w div int (length trash);
             rem = w mod int (length trash)
         in Inr (concat (replicate (nat times) trash) @ slice_to trash rem)))"

subsubsection \<open>The method \<open>at_height\<close> of the three classes\<close>

fun at_height :: "element \<Rightarrow> int \<Rightarrow> string result" where
  "at_height (Building w h brick) r =
     (if h < r then returns (single_line w [CHR '' ''])
      else returns (single_line w brick))"
| "at_height (Park w fol) r =
     (if 5 < r then returns (fill_line w [CHR '' ''])
      else if 2 \<ge> r then returns (tree_line w 1 [CHR ''|''])
      else if r = 3 then returns (tree_line w 5 fol)
      else if r = 4 then returns (tree_line w 3 fol)
      else returns (tree_line w 1 fol))"
| "at_height (EmptyLot w trash) r =
     (if r > 1 then returns (empty_line w)
      else Some (trash_to_width w (change_spaces trash)))"

subsection \<open>The parser\<close>

text \<open>
  The library functions the parser calls. \<open>is_space\<close> is the whitespace of \<open>str.split()\<close>
  among the 8-bit characters: the codes 9 to 13, 28 to 32, 133 and 160.
\<close>

definition is_space :: "char \<Rightarrow> bool" where
  "is_space c =
     (let n = (of_char c :: nat) in
      (9 \<le> n \<and> n \<le> 13) \<or> (28 \<le> n \<and> n \<le> 32) \<or> n = 133 \<or> n = 160)"

definition not_space :: "char \<Rightarrow> bool" where
  "not_space c = (\<not> is_space c)"

text \<open>\<open>s.split()\<close>: the maximal runs of characters that are not whitespace.\<close>

function split_ws :: "string \<Rightarrow> string list" where
  "split_ws s =
     (let t = dropWhile is_space s in
      if t = [] then []
      else takeWhile not_space t # split_ws (dropWhile not_space t))"
  by pat_completeness auto
termination
proof (relation "measure length")
  show "wf (measure length)" by simp
next
  fix s t :: string
  assume t: "t = dropWhile is_space s" and ne: "t \<noteq> []"
  from ne obtain c r where cr: "t = c # r" by (cases t) auto
  have "c \<in> set t" using cr by simp
  have "\<not> is_space (hd (dropWhile is_space s))"
    using ne t hd_dropWhile [of is_space s] by simp
  then have "not_space c" using cr t by (simp add: not_space_def)
  then have "length (dropWhile not_space t) \<le> length r"
    using cr by (simp add: length_dropWhile_le)
  also have "length r < length t" using cr by simp
  also have "length t \<le> length s" using t by (simp add: length_dropWhile_le)
  finally show "(dropWhile not_space t, s) \<in> measure length" by simp
qed

declare split_ws.simps [simp del]

text \<open>\<open>s.split(sep)\<close> for a one-character separator: never empty, empty fields kept.\<close>

fun split_on :: "char \<Rightarrow> string \<Rightarrow> string list" where
  "split_on sep [] = [[]]"
| "split_on sep (c # rest) =
     (if c = sep then [] # split_on sep rest
      else (let fields = split_on sep rest in (c # hd fields) # tl fields))"

text \<open>
  \<open>int(s)\<close> in base ten: surrounding whitespace is dropped, one sign may lead, and the
  digits may be grouped by single underscores; anything else raises ValueError. The
  whitespace that \<open>int\<close> drops is narrower than that of \<open>str.split()\<close>: the codes 9 to 13,
  32, 133 and 160, and not the separators 28 to 31, on which \<open>int\<close> raises.
\<close>

definition is_int_space :: "char \<Rightarrow> bool" where
  "is_int_space c =
     (let n = (of_char c :: nat) in
      (9 \<le> n \<and> n \<le> 13) \<or> n = 32 \<or> n = 133 \<or> n = 160)"

definition is_digit :: "char \<Rightarrow> bool" where
  "is_digit c = (let n = (of_char c :: nat) in 48 \<le> n \<and> n \<le> 57)"

definition digit_val :: "char \<Rightarrow> int" where
  "digit_val c = int (of_char c) - 48"

fun digits_ok :: "string \<Rightarrow> bool" where
  "digits_ok [] = False"
| "digits_ok [c] = is_digit c"
| "digits_ok (c # d # rest) =
     (is_digit c \<and> (if d = CHR ''_'' then digits_ok rest else digits_ok (d # rest)))"

definition digits_value :: "string \<Rightarrow> int" where
  "digits_value ds = foldl (\<lambda>acc c. 10 * acc + digit_val c) 0 ds"

definition strip :: "string \<Rightarrow> string" where
  "strip s = rev (dropWhile is_int_space (rev (dropWhile is_int_space s)))"

definition py_int :: "string \<Rightarrow> error + int" where
  "py_int s =
     (let t = strip s;
          negative = (t \<noteq> [] \<and> hd t = CHR ''-'');
          signed = (t \<noteq> [] \<and> (hd t = CHR ''-'' \<or> hd t = CHR ''+''));
          ds = (if signed then tl t else t)
      in if digits_ok ds
         then (let v = digits_value (filter (\<lambda>c. c \<noteq> CHR ''_'') ds)
               in Inr (if negative then - v else v))
         else Inl ValueError)"

text \<open>\<open>xs[i]\<close> for a literal index \<open>i \<ge> 0\<close>.\<close>

definition item :: "'a list \<Rightarrow> nat \<Rightarrow> error + 'a" where
  "item xs i = (if i < length xs then Inr (xs ! i) else Inl IndexError)"

fun ebind :: "error + 'a \<Rightarrow> ('a \<Rightarrow> error + 'b) \<Rightarrow> error + 'b" where
  "ebind (Inl e) f = Inl e"
| "ebind (Inr v) f = f v"

text \<open>
  \<open>create_street(parts, parts_list)\<close>. The three \<open>if\<close> statements run one after the
  other, each on the first character of the part; the arguments of a constructor are
  evaluated from left to right, so the first failing one decides the exception.
\<close>

fun create_street :: "string list \<Rightarrow> element list \<Rightarrow> error + element list" where
  "create_street [] parts_list = Inr parts_list"
| "create_street (street_part # parts) parts_list =
     ebind (item street_part 0) (\<lambda>c0.
     ebind
       (if c0 = CHR ''b'' then
          (let parameters = split_on CHR '','' (drop 2 street_part) in
           ebind (ebind (item parameters 0) py_int) (\<lambda>w.
           ebind (ebind (item parameters 1) py_int) (\<lambda>h.
           ebind (item parameters 2) (\<lambda>brick.
           Inr (parts_list @ [Building w h brick])))))
        else Inr parts_list) (\<lambda>parts_list1.
     ebind
       (if c0 = CHR ''p'' then
          (let parameters = split_on CHR '','' (drop 2 street_part) in
           ebind (ebind (item parameters 0) py_int) (\<lambda>w.
           ebind (item parameters 1) (\<lambda>fol.
           Inr (parts_list1 @ [Park w fol]))))
        else Inr parts_list1) (\<lambda>parts_list2.
     ebind
       (if c0 = CHR ''e'' then
          (let parameters = split_on CHR '','' (drop 2 street_part) in
           ebind (ebind (item parameters 0) py_int) (\<lambda>w.
           ebind (item parameters 1) (\<lambda>trash.
           Inr (parts_list2 @ [EmptyLot w trash]))))
        else Inr parts_list2) (\<lambda>parts_list3.
     create_street parts parts_list3))))"

subsection \<open>The composer and the printer\<close>

fun max_height :: "element list \<Rightarrow> int \<Rightarrow> int" where
  "max_height [] max_h = max_h"
| "max_height (p # street_parts) max_h =
     max_height street_parts (if height p > max_h then height p else max_h)"

fun street_line :: "element list \<Rightarrow> int \<Rightarrow> string result" where
  "street_line [] r = Some (Inr [])"
| "street_line (p # street_parts) r =
     (case at_height p r of
        None \<Rightarrow> None
      | Some (Inl e) \<Rightarrow> Some (Inl e)
      | Some (Inr line) \<Rightarrow>
          (case street_line street_parts r of
             None \<Rightarrow> None
           | Some (Inl e) \<Rightarrow> Some (Inl e)
           | Some (Inr more) \<Rightarrow> Some (Inr (line @ more))))"

text \<open>
  \<open>print_street\<close> writes one line per height, from \<open>height\<close> down to 1. Its result is
  the standard output after the call together with how the call ended; the lines written
  before an exception stay written.
\<close>

partial_function (option) print_street ::
  "element list \<Rightarrow> int \<Rightarrow> string list \<Rightarrow> (string list \<times> (error + unit)) option" where
  "print_street street_parts h out =
     (if h = 0 then Some (out, Inr ())
      else
        (case street_line street_parts h of
           None \<Rightarrow> None
         | Some (Inl e) \<Rightarrow> Some (out, Inl e)
         | Some (Inr line) \<Rightarrow>
             print_street street_parts (h - 1) (out @ [[CHR ''|''] @ line @ [CHR ''|'']])))"

declare print_street.simps [code]

fun find_width :: "element list \<Rightarrow> int" where
  "find_width [] = 0"
| "find_width (p # street_parts) = width p + find_width street_parts"

partial_function (option) border_line :: "int \<Rightarrow> string \<Rightarrow> string option" where
  "border_line w fill =
     (if w = 0 then Some []
      else Option.bind (border_line (w - 1) fill) (\<lambda>rest. Some (fill @ rest)))"

declare border_line.simps [code]

text \<open>\<open>main\<close>, as a function of the line that \<open>input\<close> returns.\<close>

definition main :: "string \<Rightarrow> (string list \<times> (error + unit)) option" where
  "main input_line =
     (let parts = split_ws input_line in
      case create_street parts [] of
        Inl e \<Rightarrow> Some ([], Inl e)
      | Inr street_parts \<Rightarrow>
          (let max_h = max_height street_parts 0;
               w = find_width street_parts
           in case border_line w [CHR ''-''] of
                None \<Rightarrow> None
              | Some top_fill \<Rightarrow>
                  (let out1 = [[CHR ''+''] @ top_fill @ [CHR ''+'']] in
                   case border_line w [CHR '' ''] of
                     None \<Rightarrow> None
                   | Some padding \<Rightarrow>
                       (let out2 = out1 @ [[CHR ''|''] @ padding @ [CHR ''|'']] in
                        case print_street street_parts max_h out2 of
                          None \<Rightarrow> None
                        | Some (out3, Inl e) \<Rightarrow> Some (out3, Inl e)
                        | Some (out3, Inr u) \<Rightarrow>
                            (case border_line w [CHR ''-''] of
                               None \<Rightarrow> None
                             | Some bottom_fill \<Rightarrow>
                                 Some (out3 @ [[CHR ''+''] @ bottom_fill @ [CHR ''+'']],
                                       Inr ()))))))"

subsection \<open>Observations on a run\<close>

text \<open>The lines on standard output when \<open>main\<close> has ended (none if it never does).\<close>

definition printed :: "(string list \<times> (error + unit)) option \<Rightarrow> string list" where
  "printed run = (case run of None \<Rightarrow> [] | Some (out, ending) \<Rightarrow> out)"

subsection \<open>The specification's vocabulary\<close>

text \<open>
  The definitions of this subsection follow the words of the specification, not the code;
  the theorems compare the code with them.

  A band of \<open>band\<close> copies of a glyph, centred in a row: the same padding on both sides.
  The glyph is a string, as the foliage is in the code; for a glyph of one character the
  band has \<open>band\<close> characters.
\<close>

definition centred :: "int \<Rightarrow> nat \<Rightarrow> string \<Rightarrow> string" where
  "centred w band glyph =
     replicate (nat ((w - int band) div 2)) CHR '' '' @ concat (replicate band glyph)
     @ replicate (nat ((w - int band) div 2)) CHR '' ''"

text \<open>
  A pattern sized to \<open>n\<close> characters: cut to its first \<open>n\<close> characters when it is long
  enough, otherwise full repeats followed by the leading slice of one more repeat.
\<close>

definition sized :: "nat \<Rightarrow> string \<Rightarrow> string" where
  "sized n p =
     (if length p \<ge> n then take n p
      else concat (replicate (n div length p) p) @ take (n mod length p) p)"

text \<open>
  The parameters for which a row has the element's width: those that the specification
  names, and a brick and a foliage glyph of one character each.
\<close>

fun valid_params :: "element \<Rightarrow> bool" where
  "valid_params (Building w h brick) = (1 \<le> w \<and> length brick = 1)"
| "valid_params (Park w fol) = (odd w \<and> 5 \<le> w \<and> length fol = 1)"
| "valid_params (EmptyLot w trash) = (1 \<le> w \<and> trash \<noteq> [])"

text \<open>
  A token the parser accepts: it has a first character, and when that character is
  \<open>b\<close>, \<open>p\<close> or \<open>e\<close> the text after its second character has enough comma-separated
  fields, the numeric ones readable by \<open>int\<close>.
\<close>

definition is_int :: "string \<Rightarrow> bool" where
  "is_int s = (case py_int s of Inl e \<Rightarrow> False | Inr v \<Rightarrow> True)"

definition well_formed :: "string \<Rightarrow> bool" where
  "well_formed tok =
     (case tok of
        [] \<Rightarrow> False
      | c0 # rest \<Rightarrow>
          (let fields = split_on CHR '','' (drop 2 tok) in
           if c0 = CHR ''b''
           then is_int (fields ! 0) \<and> 3 \<le> length fields \<and> is_int (fields ! 1)
           else if c0 = CHR ''p'' \<or> c0 = CHR ''e''
           then is_int (fields ! 0) \<and> 2 \<le> length fields
           else True))"

text \<open>A token of a recognised type, and the type character of an element.\<close>

definition recognized :: "string \<Rightarrow> bool" where
  "recognized tok =
     (tok \<noteq> [] \<and> (hd tok = CHR ''b'' \<or> hd tok = CHR ''p'' \<or> hd tok = CHR ''e''))"

fun kind :: "element \<Rightarrow> char" where
  "kind (Building w h brick) = CHR ''b''"
| "kind (Park w fol) = CHR ''p''"
| "kind (EmptyLot w trash) = CHR ''e''"

text \<open>The decimal numeral of a natural number, as a width is written in a token.\<close>

definition digit_char :: "nat \<Rightarrow> char" where
  "digit_char d = char_of (48 + d)"

function decimal :: "nat \<Rightarrow> string" where
  "decimal n = (if n < 10 then [digit_char n] else decimal (n div 10) @ [digit_char (n mod 10)])"
  by pat_completeness auto
termination
  by (relation "measure id") auto

declare decimal.simps [simp del]

text \<open>
  The elements whose rows can be rendered at every height: no negative width, room for the
  widest band of a park, a pattern to repeat in an empty lot.
\<close>

fun renders :: "element \<Rightarrow> bool" where
  "renders (Building w h brick) = (0 \<le> w)"
| "renders (Park w fol) = (5 \<le> w)"
| "renders (EmptyLot w trash) = (0 \<le> w \<and> trash \<noteq> [])"

text \<open>The lines of the canvas: the border, the blank padding row, a content row.\<close>

definition border :: "int \<Rightarrow> string" where
  "border w = [CHR ''+''] @ replicate (nat w) CHR ''-'' @ [CHR ''+'']"

definition padding_row :: "int \<Rightarrow> string" where
  "padding_row w = [CHR ''|''] @ replicate (nat w) CHR '' '' @ [CHR ''|'']"

definition bars :: "string \<Rightarrow> string" where
  "bars row = [CHR ''|''] @ row @ [CHR ''|'']"

subsection \<open>Closed forms of the filling helpers\<close>

lemma single_line_of_nat: "single_line (int n) f = Some (concat (replicate n f))"
proof (induction n)
  case 0
  show ?case by (subst single_line.simps) simp
next
  case (Suc n)
  have "int (Suc n) - 1 = int n" by simp
  with Suc show ?case by (subst single_line.simps) simp
qed

lemma single_line_nonneg: "0 \<le> w \<Longrightarrow> single_line w f = Some (concat (replicate (nat w) f))"
  using single_line_of_nat [of "nat w" f] by simp

lemma concat_replicate_single: "concat (replicate n [c]) = replicate n c"
  by (induction n) simp_all

lemma fill_line_of_nat: "fill_line (int n) f = Some (concat (replicate n f))"
proof (induction n)
  case 0
  show ?case by (subst fill_line.simps) simp
next
  case (Suc n)
  have "int (Suc n) - 1 = int n" by simp
  with Suc show ?case by (subst fill_line.simps) simp
qed

lemma fill_line_nonneg: "0 \<le> w \<Longrightarrow> fill_line w f = Some (concat (replicate (nat w) f))"
  using fill_line_of_nat [of "nat w" f] by simp

lemma empty_line_of_nat: "empty_line (int n) = Some (replicate n CHR '' '')"
proof (induction n)
  case 0
  show ?case by (subst empty_line.simps) simp
next
  case (Suc n)
  have "int (Suc n) - 1 = int n" by simp
  with Suc show ?case by (subst empty_line.simps) simp
qed

lemma empty_line_nonneg: "0 \<le> w \<Longrightarrow> empty_line w = Some (replicate (nat w) CHR '' '')"
  using empty_line_of_nat [of "nat w"] by simp

lemma border_line_of_nat: "border_line (int n) f = Some (concat (replicate n f))"
proof (induction n)
  case 0
  show ?case by (subst border_line.simps) simp
next
  case (Suc n)
  have "int (Suc n) - 1 = int n" by simp
  with Suc show ?case by (subst border_line.simps) simp
qed

lemma border_line_nonneg: "0 \<le> w \<Longrightarrow> border_line w f = Some (concat (replicate (nat w) f))"
  using border_line_of_nat [of "nat w" f] by simp

lemma tree_line_closed:
  assumes "0 \<le> middle" and "middle \<le> w"
  shows "tree_line w middle f =
    Some (replicate (nat ((w - middle) div 2)) CHR '' '' @ concat (replicate (nat middle) f)
          @ replicate (nat ((w - middle) div 2)) CHR '' '')"
proof -
  have "0 \<le> (w - middle) div 2" using assms by simp
  then show ?thesis
    using assms by (simp add: tree_line_def fill_line_nonneg concat_replicate_single)
qed

lemma building_row:
  "0 \<le> w \<Longrightarrow> at_height (Building w h brick) r =
     Some (Inr (if r \<le> h then concat (replicate (nat w) brick) else replicate (nat w) CHR '' ''))"
  by (simp add: returns_def single_line_nonneg concat_replicate_single)

subsection \<open>A negative width\<close>

text \<open>
  \<open>border_line\<close> returns only for a width that counting down reaches 0. For a street of
  negative total width \<open>main\<close> therefore never gets to print its first line.
\<close>

lemma border_line_returns: "border_line w f = Some y \<Longrightarrow> 0 \<le> w"
proof (rule border_line.raw_induct [where P = "\<lambda>w f y. 0 \<le> w" and w = w and fill = f and y = y])
  fix border_line' :: "int \<Rightarrow> string \<Rightarrow> string option" and w f y
  assume ih: "\<And>w f y. border_line' w f = Some y \<Longrightarrow> 0 \<le> w"
    and eq: "(if w = 0 then Some []
      else Option.bind (border_line' (w - 1) f) (\<lambda>rest. Some (f @ rest))) = Some y"
  show "0 \<le> w"
  proof (cases "w = 0")
    case True
    then show ?thesis by simp
  next
    case False
    then obtain rest where "border_line' (w - 1) f = Some rest"
      using eq by (auto split: bind_splits)
    then have "0 \<le> w - 1" by (rule ih)
    then show ?thesis by simp
  qed
qed

lemma border_line_negative: "w < 0 \<Longrightarrow> border_line w f = None"
  using border_line_returns [of w f] by (cases "border_line w f") auto

lemma negative_width_run: "main ''b_-1,1,#'' = None"
proof -
  have a: "create_street (split_ws ''b_-1,1,#'') [] = Inr [Building (- 1) 1 ''#'']"
    by code_simp
  show ?thesis by (simp add: main_def a border_line_negative)
qed

subsection \<open>Rows of a park\<close>

lemma tree_line_centred:
  "int band \<le> w \<Longrightarrow> tree_line w (int band) g = Some (centred w band g)"
  using tree_line_closed [of "int band" w g]
  by (simp add: centred_def)

lemma length_centred:
  assumes "odd w" and "odd band" and "int band \<le> w"
  shows "int (length (centred w band [g])) = w"
proof -
  have "even (w - int band)" using assms by simp
  then have "2 * ((w - int band) div 2) = w - int band" by simp
  moreover have "0 \<le> (w - int band) div 2" using assms by simp
  ultimately show ?thesis by (simp add: centred_def concat_replicate_single)
qed

lemma park_row:
  assumes "5 \<le> w"
  shows "at_height (Park w fol) r =
     Some (Inr (if 5 < r then replicate (nat w) CHR '' ''
                else if r \<le> 2 then centred w 1 [CHR ''|'']
                else if r = 3 then centred w 5 fol
                else if r = 4 then centred w 3 fol
                else centred w 1 fol))"
proof -
  have "0 \<le> w" using assms by simp
  then have f: "fill_line w [CHR '' ''] = Some (replicate (nat w) CHR '' '')"
    by (simp add: fill_line_nonneg concat_replicate_single)
  have t1: "tree_line w 1 g = Some (centred w 1 g)" for g
    using tree_line_centred [of 1 w g] assms by simp
  have t3: "tree_line w 3 g = Some (centred w 3 g)" for g
    using tree_line_centred [of 3 w g] assms by simp
  have t5: "tree_line w 5 g = Some (centred w 5 g)" for g
    using tree_line_centred [of 5 w g] assms by simp
  show ?thesis by (simp add: returns_def f t1 t3 t5)
qed

lemma print_street_of_nat:
  assumes "\<And>h. 1 \<le> h \<Longrightarrow> h \<le> int n \<Longrightarrow> street_line street h = Some (Inr (row h))"
  shows "print_street street (int n) out =
     Some (out @ map (\<lambda>h. [CHR ''|''] @ row h @ [CHR ''|'']) (rev [1..int n]), Inr ())"
  using assms
proof (induction n arbitrary: out)
  case 0
  show ?case by (subst print_street.simps) simp
next
  case (Suc n)
  have line: "street_line street (int (Suc n)) = Some (Inr (row (int (Suc n))))"
    using Suc.prems [of "int (Suc n)"] by simp
  have rest: "print_street street (int n) out' =
     Some (out' @ map (\<lambda>h. [CHR ''|''] @ row h @ [CHR ''|'']) (rev [1..int n]), Inr ())" for out'
    using Suc.IH [of out'] Suc.prems by simp
  have up: "[1..int (Suc n)] = [1..int n] @ [int (Suc n)]"
    using upto_rec2 [of 1 "int (Suc n)"] by simp
  have step: "int (Suc n) - 1 = int n" by simp
  have nz: "int (Suc n) \<noteq> 0" by simp
  show ?case
    by (subst print_street.simps) (simp only: nz line step rest up, simp)
qed

lemma park_print:
  assumes "5 \<le> w"
  shows "print_street [Park w fol] 5 [] =
     Some (map (\<lambda>row. [CHR ''|''] @ row @ [CHR ''|''])
             [centred w 1 fol, centred w 3 fol, centred w 5 fol,
              centred w 1 [CHR ''|''], centred w 1 [CHR ''|'']], Inr ())"
  using assms by (simp del: at_height.simps add: print_street.simps park_row)

subsection \<open>Rows of an empty lot\<close>

lemma change_spaces_map:
  "change_spaces trash = map (\<lambda>c. if c = CHR ''_'' then CHR '' '' else c) trash"
  by (induction trash) simp_all

lemma length_change_spaces: "length (change_spaces trash) = length trash"
  by (simp add: change_spaces_map)

lemma no_underscore: "CHR ''_'' \<notin> set (change_spaces trash)"
  by (induction trash) simp_all

lemma trash_to_width_sized:
  assumes "0 \<le> w" and "p \<noteq> []"
  shows "trash_to_width w p = Inr (sized (nat w) p)"
proof -
  let ?n = "int (length p)"
  have pos: "0 < ?n" using assms by simp
  have m: "0 \<le> w mod ?n" using pos by simp
  have d: "nat (w div ?n) = nat w div length p"
    using assms by (simp add: nat_div_distrib)
  have r: "nat (w mod ?n) = nat w mod length p"
    using assms by (simp add: nat_mod_distrib)
  have le: "(w \<le> ?n) = (nat w \<le> length p)" using assms by auto
  have s1: "slice_to p w = take (nat w) p" using assms by (simp add: slice_to_def)
  have s2: "slice_to p (w mod ?n) = take (nat w mod length p) p"
    using m r by (simp add: slice_to_def)
  show ?thesis
    using assms by (simp add: trash_to_width_def sized_def s1 s2 d le Let_def)
qed

lemma length_concat_replicate: "length (concat (replicate k p)) = k * length p"
  by (induction k) simp_all

lemma length_sized: "p \<noteq> [] \<Longrightarrow> length (sized n p) = n"
proof -
  assume "p \<noteq> []"
  then have "0 < length p" by simp
  then have "n mod length p < length p" by simp
  then have "min (length p) (n mod length p) = n mod length p" by simp
  then show ?thesis
    by (simp add: sized_def length_concat_replicate)
qed

lemma nth_concat_replicate:
  "i < k * length p \<Longrightarrow> concat (replicate k p) ! i = p ! (i mod length p)"
proof (induction k arbitrary: i)
  case 0
  then show ?case by simp
next
  case (Suc k)
  show ?case
  proof (cases "i < length p")
    case True
    then show ?thesis by (simp add: nth_append)
  next
    case False
    then have "i - length p < k * length p" using Suc.prems by simp
    then have "concat (replicate k p) ! (i - length p) = p ! ((i - length p) mod length p)"
      by (rule Suc.IH)
    moreover have "(i - length p) mod length p = i mod length p"
      using False by (simp add: le_mod_geq)
    ultimately show ?thesis using False by (simp add: nth_append)
  qed
qed

lemma nth_sized:
  assumes "p \<noteq> []" and "i < n"
  shows "sized n p ! i = p ! (i mod length p)"
proof (cases "n \<le> length p")
  case True
  then show ?thesis using assms by (simp add: sized_def)
next
  case False
  let ?k = "n div length p"
  have pos: "0 < length p" using assms by simp
  show ?thesis
  proof (cases "i < ?k * length p")
    case True
    then show ?thesis
      using False by (simp add: sized_def nth_append length_concat_replicate nth_concat_replicate)
  next
    case False2: False
    have "n = ?k * length p + n mod length p" by simp
    then have lt: "i - ?k * length p < n mod length p" using assms False2 by linarith
    have "i = ?k * length p + (i - ?k * length p)" using False2 by simp
    then have "i mod length p = (i - ?k * length p) mod length p"
      by (metis mod_mult_self3)
    also have "\<dots> = i - ?k * length p"
      using lt pos by (simp add: less_trans [OF lt] mod_less_divisor)
    finally have im: "i mod length p = i - ?k * length p" .
    show ?thesis
      using False False2 lt by (simp add: sized_def nth_append length_concat_replicate im)
  qed
qed

subsection \<open>The parser, token by token\<close>

text \<open>
  The separators 28 to 31 split a line but are no whitespace for \<open>int\<close>: a field that
  starts with one is not a number, and its token makes \<open>create_street\<close> raise.
\<close>

lemma int_separator_raises:
  "py_int [CHR 0x1F, CHR ''4''] = Inl ValueError
   \<and> py_int [CHR 0xA0, CHR ''4'', CHR 0x09] = Inr 4
   \<and> \<not> well_formed (''b_'' @ [CHR 0x1F] @ ''4,1,#'')
   \<and> create_street [''b_'' @ [CHR 0x1F] @ ''4,1,#''] [] = Inl ValueError"
  by code_simp

lemma split_on_nonempty: "split_on sep s \<noteq> []"
  by (induction s) (simp_all add: Let_def)

lemma length_split_on: "0 < length (split_on sep s)"
  using split_on_nonempty [of sep s] by simp

lemma ebind_cases: "ebind m f = (case m of Inl e \<Rightarrow> Inl e | Inr v \<Rightarrow> f v)"
  by (cases m) simp_all

lemma create_street_step:
  "create_street (tok # parts) parts_list =
     (case create_street [tok] [] of
        Inl e \<Rightarrow> Inl e
      | Inr es \<Rightarrow> create_street parts (parts_list @ es))"
  by (cases tok) (simp_all add: item_def ebind_cases Let_def split: sum.splits)

lemma token_ill_formed:
  "\<not> well_formed tok \<Longrightarrow> \<exists>e. create_street [tok] [] = Inl e"
  using length_split_on [of "CHR '',''" "drop 2 tok"]
  by (cases tok)
     (auto simp add: well_formed_def is_int_def item_def ebind_cases Let_def
           split: sum.splits if_splits)

lemma token_well_formed:
  "well_formed tok \<Longrightarrow>
     (recognized tok \<and> (\<exists>e. create_street [tok] [] = Inr [e] \<and> kind e = hd tok))
     \<or> (\<not> recognized tok \<and> create_street [tok] [] = Inr [])"
  using length_split_on [of "CHR '',''" "drop 2 tok"]
  by (cases tok)
     (auto simp add: well_formed_def recognized_def is_int_def item_def ebind_cases Let_def
           split: sum.splits if_splits)


lemma create_street_well_formed:
  "list_all well_formed parts \<Longrightarrow>
     \<exists>es. create_street parts parts_list = Inr (parts_list @ es)
        \<and> map kind es = map hd (filter recognized parts)
        \<and> list_all2 (\<lambda>e tok. create_street [tok] [] = Inr [e]) es (filter recognized parts)"
proof (induction parts arbitrary: parts_list)
  case Nil
  then show ?case by simp
next
  case (Cons tok parts)
  then have wf: "well_formed tok" and rest: "list_all well_formed parts" by simp_all
  show ?case
  proof (cases "recognized tok")
    case True
    then obtain e where e: "create_street [tok] [] = Inr [e]" and k: "kind e = hd tok"
      using token_well_formed [OF wf] by blast
    obtain es where es: "create_street parts (parts_list @ [e]) = Inr ((parts_list @ [e]) @ es)"
        and ks: "map kind es = map hd (filter recognized parts)"
        and each: "list_all2 (\<lambda>e tok. create_street [tok] [] = Inr [e]) es
                     (filter recognized parts)"
      using Cons.IH [OF rest, of "parts_list @ [e]"] by blast
    have "create_street (tok # parts) parts_list = Inr (parts_list @ (e # es))"
      using e es by (simp del: create_street.simps add: create_street_step [of tok parts parts_list])
    moreover have "map kind (e # es) = map hd (filter recognized (tok # parts))"
      using True k ks by simp
    moreover have "list_all2 (\<lambda>e tok. create_street [tok] [] = Inr [e]) (e # es)
                     (filter recognized (tok # parts))"
      using True e each by simp
    ultimately show ?thesis by blast
  next
    case False
    then have e: "create_street [tok] [] = Inr []"
      using token_well_formed [OF wf] by blast
    obtain es where es: "create_street parts parts_list = Inr (parts_list @ es)"
        and ks: "map kind es = map hd (filter recognized parts)"
        and each: "list_all2 (\<lambda>e tok. create_street [tok] [] = Inr [e]) es
                     (filter recognized parts)"
      using Cons.IH [OF rest, of parts_list] by blast
    have "create_street (tok # parts) parts_list = Inr (parts_list @ es)"
      using e es by (simp del: create_street.simps add: create_street_step [of tok parts parts_list])
    then show ?thesis using False ks each by auto
  qed
qed

lemma create_street_ill_formed:
  "\<not> list_all well_formed parts \<Longrightarrow> \<exists>e. create_street parts parts_list = Inl e"
proof (induction parts arbitrary: parts_list)
  case Nil
  then show ?case by simp
next
  case (Cons tok parts)
  show ?case
  proof (cases "well_formed tok")
    case False
    then obtain e where "create_street [tok] [] = Inl e"
      using token_ill_formed by blast
    then show ?thesis by (simp del: create_street.simps add: create_street_step [of tok parts parts_list])
  next
    case True
    then obtain es where es: "create_street [tok] [] = Inr es"
      using token_well_formed [OF True] by blast
    have "\<not> list_all well_formed parts" using True Cons.prems by simp
    then obtain e where "create_street parts (parts_list @ es) = Inl e"
      using Cons.IH [of "parts_list @ es"] by blast
    then show ?thesis using es by (simp del: create_street.simps add: create_street_step [of tok parts parts_list])
  qed
qed

subsection \<open>Decimal numerals\<close>

lemma is_digit_digit_char: "d < 10 \<Longrightarrow> is_digit (digit_char d)"
  by (simp add: is_digit_def digit_char_def)

lemma digit_val_digit_char: "d < 10 \<Longrightarrow> digit_val (digit_char d) = int d"
  by (simp add: digit_val_def digit_char_def)

lemma decimal_nonempty: "decimal n \<noteq> []"
  by (subst decimal.simps) simp

lemma decimal_digits: "list_all is_digit (decimal n)"
proof (induction n rule: decimal.induct)
  case (1 n)
  show ?case
  proof (cases "n < 10")
    case True
    then show ?thesis by (subst decimal.simps) (simp add: is_digit_digit_char)
  next
    case False
    then show ?thesis using 1 by (subst decimal.simps) (simp add: is_digit_digit_char)
  qed
qed

lemma digits_value_snoc: "digits_value (ds @ [c]) = 10 * digits_value ds + digit_val c"
  by (simp add: digits_value_def)

lemma digits_value_decimal: "digits_value (decimal n) = int n"
proof (induction n rule: decimal.induct)
  case (1 n)
  show ?case
  proof (cases "n < 10")
    case True
    then show ?thesis
      by (subst decimal.simps) (simp add: digits_value_def digit_val_digit_char)
  next
    case False
    have "int n = 10 * int (n div 10) + int (n mod 10)"
      by (metis mult_div_mod_eq of_nat_add of_nat_mult of_nat_numeral)
    then show ?thesis using False 1
      by (subst decimal.simps) (simp add: digits_value_snoc digit_val_digit_char)
  qed
qed

lemma digit_not_space: "is_digit c \<Longrightarrow> \<not> is_int_space c"
  by (auto simp add: is_digit_def is_int_space_def Let_def)

lemma digit_not_symbol:
  "is_digit c \<Longrightarrow> c \<noteq> CHR ''_'' \<and> c \<noteq> CHR '','' \<and> c \<noteq> CHR ''-'' \<and> c \<noteq> CHR ''+''"
  by (auto simp add: is_digit_def Let_def)

lemma digits_ok_digits: "ds \<noteq> [] \<Longrightarrow> list_all is_digit ds \<Longrightarrow> digits_ok ds"
proof (induction ds rule: digits_ok.induct)
  case 1
  then show ?case by simp
next
  case (2 c)
  then show ?case by simp
next
  case (3 c d rest)
  then show ?case using digit_not_symbol [of d] by simp
qed

lemma strip_digits:
  assumes "ds \<noteq> []" and "list_all is_digit ds"
  shows "strip ds = ds"
proof -
  have "is_digit (hd ds)" using assms by (cases ds) simp_all
  then have a: "dropWhile is_int_space ds = ds"
    using assms digit_not_space by (cases ds) simp_all
  have "is_digit (last ds)" using assms by (simp add: list_all_iff)
  then have "\<not> is_int_space (hd (rev ds))"
    using assms digit_not_space by (simp add: hd_rev)
  then have b: "dropWhile is_int_space (rev ds) = rev ds"
    using assms by (cases "rev ds") simp_all
  show ?thesis by (simp add: strip_def a b)
qed

lemma py_int_digits:
  assumes "ds \<noteq> []" and "list_all is_digit ds"
  shows "py_int ds = Inr (digits_value ds)"
proof -
  have h: "is_digit (hd ds)" using assms by (cases ds) simp_all
  have f: "filter (\<lambda>c. c \<noteq> CHR ''_'') ds = ds"
    using assms digit_not_symbol by (auto simp add: list_all_iff filter_id_conv)
  show ?thesis
    using assms h digit_not_symbol [OF h]
    by (simp add: py_int_def strip_digits digits_ok_digits f Let_def)
qed

lemma split_on_last_comma:
  "list_all is_digit ds \<Longrightarrow> split_on CHR '','' (ds @ '','') = [ds, []]"
proof (induction ds)
  case Nil
  show ?case by simp
next
  case (Cons c ds)
  then show ?case using digit_not_symbol [of c] by (simp add: Let_def)
qed

lemma empty_trash_token:
  "create_street [''e_'' @ decimal n @ '',''] [] = Inr [EmptyLot (int n) []]"
  by (simp add: item_def split_on_last_comma decimal_digits py_int_digits decimal_nonempty
        digits_value_decimal)

subsection \<open>The composer and the canvas\<close>

lemma find_width_sum: "find_width street = sum_list (map width street)"
  by (induction street) simp_all

lemma find_width_nonneg: "list_all renders street \<Longrightarrow> 0 \<le> find_width street"
proof (induction street)
  case Nil
  show ?case by simp
next
  case (Cons p street)
  then have "0 \<le> width p" by (cases p) simp_all
  then show ?case using Cons by simp
qed

lemma max_height_Max: "max_height street m = Max (set (m # map height street))"
proof (induction street arbitrary: m)
  case Nil
  show ?case by simp
next
  case (Cons p street)
  have "max_height (p # street) m = max_height street (max m (height p))"
    by (simp add: max_def)
  also have "\<dots> = Max (set (max m (height p) # map height street))"
    by (rule Cons.IH)
  also have "\<dots> = Max (set (m # map height (p # street)))"
  proof (cases "street = []")
    case True
    then show ?thesis by simp
  next
    case False
    then show ?thesis by (simp add: max.assoc)
  qed
  finally show ?case .
qed

lemma max_height_lower: "m \<le> max_height street m"
  by (simp add: max_height_Max)

lemma renders_row: "renders p \<Longrightarrow> \<exists>row. at_height p r = Some (Inr row)"
proof (cases p)
  case (Building w h brick)
  assume "renders p"
  then show ?thesis using Building by (simp add: returns_def single_line_nonneg)
next
  case (Park w fol)
  assume "renders p"
  then have w: "5 \<le> w" using Park by simp
  then have "0 \<le> w" by simp
  then have f: "\<exists>row. fill_line w [CHR '' ''] = Some row" by (simp add: fill_line_nonneg)
  have "\<exists>row. tree_line w 1 g = Some row" "\<exists>row. tree_line w 3 g = Some row"
       "\<exists>row. tree_line w 5 g = Some row" for g
    using w tree_line_closed [of 1 w g] tree_line_closed [of 3 w g]
          tree_line_closed [of 5 w g] by simp_all
  then show ?thesis using Park f by (auto simp add: returns_def)
next
  case (EmptyLot w trash)
  assume "renders p"
  then have w: "0 \<le> w" and t: "trash \<noteq> []" using EmptyLot by simp_all
  have ne: "change_spaces trash \<noteq> []" using t length_change_spaces [of trash] by auto
  show ?thesis
    using EmptyLot w trash_to_width_sized [OF w ne]
    by (simp add: returns_def empty_line_nonneg)
qed

lemma renders_street_line:
  "list_all renders street \<Longrightarrow> \<exists>row. street_line street r = Some (Inr row)"
proof (induction street)
  case Nil
  show ?case by simp
next
  case (Cons p street)
  then obtain line more where "at_height p r = Some (Inr line)"
      and "street_line street r = Some (Inr more)"
    using renders_row [of p r] by auto
  then show ?case by (simp del: at_height.simps)
qed

lemma nth_rev_upto:
  assumes "k < nat n"
  shows "rev [1..n] ! k = n - int k"
proof -
  have len: "length [1..n] = nat n" by simp
  have "rev [1..n] ! k = [1..n] ! (nat n - Suc k)"
    using assms by (simp add: rev_nth)
  also have "\<dots> = 1 + int (nat n - Suc k)"
    using assms by (intro nth_upto) linarith
  also have "\<dots> = n - int k" using assms by linarith
  finally show ?thesis .
qed

section \<open>The claims\<close>

subsection \<open>C1: the worked example\<close>

text \<open>
  C1, as the specification states it: for the input line \<open>b_4,3,# p_5,* e_3,x_y\<close> the
  first content row between the bars is \<open>####  *     \<close> and the fifth is
  \<open>      |  x y\<close>. The program prints eight lines; the first content row is the line of
  index 2 and the fifth the line of index 6, and neither is the row the claim gives:
  \<open>print_street\<close> starts at the greatest height, so a building stands on the ground.
\<close>

theorem example_rows_counterexample:
  "length (printed (main ''b_4,3,# p_5,* e_3,x_y'')) = 8
   \<and> printed (main ''b_4,3,# p_5,* e_3,x_y'') ! 2 \<noteq> ''|####  *     |''
   \<and> printed (main ''b_4,3,# p_5,* e_3,x_y'') ! 6 \<noteq> ''|      |  x y|''"
  by code_simp

text \<open>
  C1, amended: the line parses to Building(4, 3, '#'), Park(5, '*'), EmptyLot(3, 'x_y'),
  the greatest height is 5 and the total width 12, and the picture is the one below: its
  first content row is \<open>      *     \<close> and its fifth is \<open>####  |  x y\<close>.
\<close>

theorem example_street:
  "create_street (split_ws ''b_4,3,# p_5,* e_3,x_y'') []
     = Inr [Building 4 3 ''#'', Park 5 ''*'', EmptyLot 3 ''x_y'']
   \<and> max_height [Building 4 3 ''#'', Park 5 ''*'', EmptyLot 3 ''x_y''] 0 = 5
   \<and> find_width [Building 4 3 ''#'', Park 5 ''*'', EmptyLot 3 ''x_y''] = 12
   \<and> main ''b_4,3,# p_5,* e_3,x_y'' =
       Some ([''+------------+'',
              ''|            |'',
              ''|      *     |'',
              ''|     ***    |'',
              ''|####*****   |'',
              ''|####  |     |'',
              ''|####  |  x y|'',
              ''+------------+''], Inr ())"
  by code_simp

subsection \<open>C2: the empty line\<close>

text \<open>
  C2, as the specification states it: for the empty input line the whole output is the two
  border lines \<open>++\<close>, with no padding row. The run prints three lines.
\<close>

theorem empty_line_counterexample:
  "printed (main []) \<noteq> [''++'', ''++''] \<and> length (printed (main [])) = 3"
  by code_simp

text \<open>
  C2, amended: the empty line has no element, width 0 and height 0, and the output is three
  lines: the border \<open>++\<close>, the padding row \<open>||\<close> with nothing between its bars, and the
  border \<open>++\<close> again; there is no content row.
\<close>

theorem empty_line_output:
  "create_street (split_ws []) [] = Inr []
   \<and> max_height [] 0 = 0 \<and> find_width [] = 0
   \<and> main [] = Some ([''++'', ''||'', ''++''], Inr ())"
  by code_simp

subsection \<open>C3: the canvas\<close>

text \<open>
  C3, as the specification states it: for every parsed street the output is the top
  border, one padding row, \<open>maxHeight\<close> content rows and the bottom border. The line
  \<open>e_1,\<close> parses to a street of one empty lot with an empty pattern and height 1; the
  run prints the border and the padding row and then raises in the only content row, so
  there is neither a content row nor a bottom border.
\<close>

theorem main_output_counterexample:
  "create_street (split_ws ''e_1,'') [] = Inr [EmptyLot 1 []]
   \<and> max_height [EmptyLot 1 []] 0 = 1
   \<and> main ''e_1,'' = Some ([''+-+'', ''| |''], Inl ZeroDivisionError)"
  by code_simp

text \<open>
  C3, amended: for every parsed street whose elements can be rendered (every width is
  non-negative, every park is at least 5 wide and every empty lot has a non-empty pattern),
  the printed output consists, in order, of the top border (\<open>+\<close>, \<open>totalWidth\<close> copies of
  \<open>-\<close>, \<open>+\<close>), exactly one padding row (\<open>|\<close>, \<open>totalWidth\<close> spaces, \<open>|\<close>), exactly
  \<open>maxHeight\<close> content rows from the top to the bottom, each a composed row between two
  bars, the row of index \<open>i\<close> composed at height \<open>maxHeight - i\<close>, and the bottom border,
  equal to the top one. \<open>totalWidth\<close> is the sum of the widths and \<open>maxHeight\<close> the
  greatest of 0 and the heights.
\<close>

theorem main_output:
  assumes "create_street (split_ws input_line) [] = Inr street"
      and "list_all renders street"
  shows "\<exists>content.
     main input_line =
       Some ([border (find_width street), padding_row (find_width street)]
             @ map bars content @ [border (find_width street)], Inr ())
     \<and> length content = nat (max_height street 0)
     \<and> (\<forall>i < length content.
           street_line street (max_height street 0 - int i) = Some (Inr (content ! i)))
     \<and> find_width street = sum_list (map width street)
     \<and> max_height street 0 = Max (set (0 # map height street))"
proof -
  let ?w = "find_width street" and ?h = "max_height street 0"
  have w: "0 \<le> ?w" using assms(2) by (rule find_width_nonneg)
  have h: "0 \<le> ?h" by (rule max_height_lower)
  have "\<forall>r. \<exists>row. street_line street r = Some (Inr row)"
    using renders_street_line [OF assms(2)] by blast
  then obtain f where f: "\<And>r. street_line street r = Some (Inr (f r))"
    by metis
  let ?content = "map f (rev [1..?h])"
  have b1: "border_line ?w [CHR ''-''] = Some (replicate (nat ?w) CHR ''-'')"
    using w by (simp add: border_line_nonneg concat_replicate_single)
  have b2: "border_line ?w [CHR '' ''] = Some (replicate (nat ?w) CHR '' '')"
    using w by (simp add: border_line_nonneg concat_replicate_single)
  have "print_street street (int (nat ?h)) out =
     Some (out @ map (\<lambda>r. [CHR ''|''] @ f r @ [CHR ''|'']) (rev [1..int (nat ?h)]),
           Inr ())" for out
    by (rule print_street_of_nat) (rule f)
  then have p: "print_street street ?h out = Some (out @ map bars ?content, Inr ())" for out
    using h by (simp add: bars_def comp_def)
  have m: "main input_line =
       Some ([border ?w, padding_row ?w] @ map bars ?content @ [border ?w], Inr ())"
    by (simp add: main_def Let_def assms(1) b1 b2 p border_def padding_row_def del: map_map)
  have l: "length ?content = nat ?h" by simp
  have n: "street_line street (?h - int i) = Some (Inr (?content ! i))"
    if "i < length ?content" for i
  proof -
    from that have k: "i < nat ?h" by simp
    then have "i < length (rev [1..?h])" by simp
    then have "?content ! i = f (rev [1..?h] ! i)" by (rule nth_map)
    then have "?content ! i = f (?h - int i)" by (simp only: nth_rev_upto [OF k])
    then show ?thesis by (simp only: f)
  qed
  show ?thesis
    using m l n find_width_sum [of street] max_height_Max [of street 0] by blast
qed

theorem main_output_witness:
  "create_street (split_ws ''b_2,1,# e_3,ab'') [] = Inr [Building 2 1 ''#'', EmptyLot 3 ''ab'']
   \<and> list_all renders [Building 2 1 ''#'', EmptyLot 3 ''ab'']
   \<and> main ''b_2,1,# e_3,ab'' =
       Some ([''+-----+'', ''|     |'', ''|##aba|'', ''+-----+''], Inr ())"
proof -
  let ?street = "[Building 2 1 ''#'', EmptyLot 3 ''ab'']"
  have a: "create_street (split_ws ''b_2,1,# e_3,ab'') [] = Inr ?street" by code_simp
  have b: "list_all renders ?street" by simp
  have w: "find_width ?street = 5" and h: "max_height ?street 0 = 1" by simp_all
  have r: "street_line ?street 1 = Some (Inr ''##aba'')" by code_simp
  obtain content where m: "main ''b_2,1,# e_3,ab'' =
       Some ([border (find_width ?street), padding_row (find_width ?street)]
             @ map bars content @ [border (find_width ?street)], Inr ())"
      and l: "length content = nat (max_height ?street 0)"
      and n: "\<forall>i < length content.
           street_line ?street (max_height ?street 0 - int i) = Some (Inr (content ! i))"
    using main_output [OF a b] by blast
  from l h have l1: "length content = 1" by simp
  then obtain row where c: "content = [row]" by (cases content) auto
  from n c h r have "row = ''##aba''" by simp
  then have "main ''b_2,1,# e_3,ab'' =
      Some ([''+-----+'', ''|     |'', ''|##aba|'', ''+-----+''], Inr ())"
    using m c w by (simp add: border_def padding_row_def bars_def eval_nat_numeral)
  then show ?thesis using a b by blast
qed

subsection \<open>C4: every row has the element's width\<close>

text \<open>
  C4, as the specification states it: for every element with valid parameters (Building:
  width at least 1; Park: odd width at least 5; EmptyLot: width at least 1 and a non-empty
  pattern) and every row index \<open>r \<ge> 1\<close>, \<open>at_height r\<close> has exactly \<open>width\<close>
  characters. The parser stores the brick as the string it reads, and \<open>single_line\<close>
  repeats that string: the building of the token \<open>b_1,1,##\<close> has width 1 and a row of two
  characters.
\<close>

theorem row_width_counterexample:
  "1 \<le> width (Building 1 1 ''##'')
   \<and> at_height (Building 1 1 ''##'') 1 = Some (Inr ''##'')
   \<and> int (length ''##'') \<noteq> width (Building 1 1 ''##'')"
  by code_simp

text \<open>
  C4, amended: for every element with valid parameters, where the brick of a Building and
  the foliage of a Park are one character each, and every row index \<open>r \<ge> 1\<close>,
  \<open>at_height r\<close> returns a string of exactly \<open>width\<close> characters, and that string
  consists of spaces whenever \<open>r\<close> exceeds the element's own height.
\<close>

theorem row_has_width:
  assumes "valid_params e" and "1 \<le> r"
  shows "\<exists>row. at_height e r = Some (Inr row) \<and> int (length row) = width e
           \<and> (height e < r \<longrightarrow> row = replicate (nat (width e)) CHR '' '')"
proof (cases e)
  case (Building w h brick)
  then obtain c where c: "brick = [c]" using assms by (cases brick) auto
  have "0 \<le> w" using assms Building by simp
  then show ?thesis
    using Building c building_row [of w h brick r]
    by (simp del: at_height.simps add: concat_replicate_single)
next
  case (Park w fol)
  then obtain g where g: "fol = [g]" using assms by (cases fol) auto
  have w: "5 \<le> w" "odd w" using assms Park by simp_all
  have l1: "int (length (centred w 1 [c])) = w" for c
    using length_centred [of w 1 c] w by simp
  have l3: "int (length (centred w 3 [c])) = w" for c
    using length_centred [of w 3 c] w by simp
  have l5: "int (length (centred w 5 [c])) = w" for c
    using length_centred [of w 5 c] w by simp
  show ?thesis
    using Park g w l1 l3 l5 park_row [of w fol r]
    by (simp del: at_height.simps)
next
  case (EmptyLot w trash)
  then have w: "1 \<le> w" and t: "trash \<noteq> []" using assms by simp_all
  have ne: "change_spaces trash \<noteq> []" using t length_change_spaces [of trash] by auto
  show ?thesis
  proof (cases "1 < r")
    case True
    then show ?thesis using EmptyLot w by (simp add: returns_def empty_line_nonneg)
  next
    case False
    then show ?thesis
      using EmptyLot w ne trash_to_width_sized [of w "change_spaces trash"]
      by (simp add: length_sized)
  qed
qed

theorem row_has_width_witness:
  "(\<exists>row. at_height (Park 5 ''*'') 4 = Some (Inr row) \<and> int (length row) = 5)
   \<and> at_height (Building 2 1 ''#'') 2 = Some (Inr ''  '')"
  using row_has_width [of "Park 5 ''*''" 4] row_has_width [of "Building 2 1 ''#''" 2]
  by (auto simp del: at_height.simps simp add: eval_nat_numeral)

subsection \<open>C5: the rows of a building\<close>

text \<open>
  C5: for every Building of width at least 1 and every row index \<open>r \<ge> 1\<close>,
  \<open>at_height r\<close> is the brick repeated \<open>width\<close> times when \<open>r \<le> height\<close>, and
  \<open>width\<close> spaces when \<open>r > height\<close>. (For a brick of one character \<open>c\<close> the repetition
  \<open>concat (replicate n [c])\<close> is \<open>replicate n c\<close>.)
\<close>

theorem building_at_height:
  "1 \<le> w \<Longrightarrow> 1 \<le> r \<Longrightarrow> at_height (Building w h brick) r =
     Some (Inr (if r \<le> h then concat (replicate (nat w) brick) else replicate (nat w) CHR '' ''))"
  using building_row [of w h brick r] by simp

theorem building_at_height_witness:
  "at_height (Building 4 3 ''#'') 2 = Some (Inr ''####'')
   \<and> at_height (Building 4 3 ''#'') 5 = Some (Inr ''    '')"
  using building_at_height [of 4 2 3 "''#''"] building_at_height [of 4 5 3 "''#''"]
  by (simp add: eval_nat_numeral)

subsection \<open>C6: the rows of a park\<close>

text \<open>
  C6: a Park of odd width at least 5 has height 5; its rows from the top (height 5) to the
  bottom (height 1), in the order \<open>print_street\<close> writes them, are centred bands of 1, 3
  and 5 copies of the foliage and twice one trunk character \<open>|\<close>, each with the same
  padding on both sides; a row whose band is made of one character fills the width.
\<close>

theorem park_rows:
  assumes "odd w" and "5 \<le> w"
  shows "height (Park w fol) = 5
    \<and> map (at_height (Park w fol)) [5, 4, 3, 2, 1] =
        [Some (Inr (centred w 1 fol)), Some (Inr (centred w 3 fol)),
         Some (Inr (centred w 5 fol)),
         Some (Inr (centred w 1 [CHR ''|''])), Some (Inr (centred w 1 [CHR ''|'']))]
    \<and> print_street [Park w fol] (height (Park w fol)) [] =
        Some (map (\<lambda>row. [CHR ''|''] @ row @ [CHR ''|''])
                [centred w 1 fol, centred w 3 fol, centred w 5 fol,
                 centred w 1 [CHR ''|''], centred w 1 [CHR ''|'']], Inr ())
    \<and> int (length (centred w 1 [g])) = w
    \<and> int (length (centred w 3 [g])) = w
    \<and> int (length (centred w 5 [g])) = w"
proof -
  note park_print [OF assms(2), of fol]
  moreover
  have "int (length (centred w 1 [g])) = w"
    using length_centred [of w 1 g] assms by simp
  moreover have "int (length (centred w 3 [g])) = w"
    using length_centred [of w 3 g] assms by simp
  moreover have "int (length (centred w 5 [g])) = w"
    using length_centred [of w 5 g] assms by simp
  ultimately show ?thesis using assms by (simp del: at_height.simps add: park_row)
qed

theorem park_rows_witness:
  "map (at_height (Park 7 ''*'')) [5, 4, 3, 2, 1] =
     [Some (Inr ''   *   ''), Some (Inr ''  ***  ''), Some (Inr '' ***** ''),
      Some (Inr ''   |   ''), Some (Inr ''   |   '')]
   \<and> length (centred 7 5 ''*'') = 7"
  using park_rows [of 7 "''*''" "CHR ''*''"]
  by (simp add: centred_def eval_nat_numeral)

subsection \<open>C7: the row of an empty lot\<close>

text \<open>
  C7: for an EmptyLot of width at least 1 with a non-empty pattern, the normalised pattern
  (each underscore replaced by a space) has no underscore, and \<open>at_height 1\<close> is the
  normalised pattern sized to the width: it has exactly \<open>width\<close> characters, and its
  character at position \<open>i\<close> is the pattern's at \<open>i\<close> modulo the pattern's length.
\<close>

theorem lot_row:
  assumes "1 \<le> w" and "trash \<noteq> []"
  shows "change_spaces trash = map (\<lambda>c. if c = CHR ''_'' then CHR '' '' else c) trash
    \<and> CHR ''_'' \<notin> set (change_spaces trash)
    \<and> at_height (EmptyLot w trash) 1 = Some (Inr (sized (nat w) (change_spaces trash)))
    \<and> length (sized (nat w) (change_spaces trash)) = nat w
    \<and> (\<forall>i < nat w. sized (nat w) (change_spaces trash) ! i
          = change_spaces trash ! (i mod length trash))"
proof -
  have ne: "change_spaces trash \<noteq> []"
    using assms length_change_spaces [of trash] by auto
  have "at_height (EmptyLot w trash) 1 = Some (Inr (sized (nat w) (change_spaces trash)))"
    using trash_to_width_sized [of w "change_spaces trash"] ne assms by simp
  moreover have "\<forall>i < nat w. sized (nat w) (change_spaces trash) ! i
          = change_spaces trash ! (i mod length trash)"
    using nth_sized [OF ne, of _ "nat w"] by (simp add: length_change_spaces)
  ultimately show ?thesis
    using ne by (simp add: change_spaces_map [symmetric] no_underscore length_sized)
qed

theorem lot_row_witness:
  "at_height (EmptyLot 7 ''ab_'') 1 = Some (Inr ''ab ab a'')
   \<and> CHR ''_'' \<notin> set (change_spaces ''ab_'')
   \<and> length ''ab ab a'' = nat 7
   \<and> ''ab ab a'' ! 4 = ''ab '' ! 1"
proof -
  have w: "1 \<le> (7::int)" and t: "''ab_'' \<noteq> []" by simp_all
  have v: "sized (nat 7) ''ab '' = ''ab ab a''" by code_simp
  have c: "change_spaces ''ab_'' = ''ab ''" by simp
  have "at_height (EmptyLot 7 ''ab_'') 1 = Some (Inr (sized (nat 7) (change_spaces ''ab_'')))"
    and "CHR ''_'' \<notin> set (change_spaces ''ab_'')"
    and "length (sized (nat 7) (change_spaces ''ab_'')) = nat 7"
    and "\<forall>i < nat 7. sized (nat 7) (change_spaces ''ab_'') ! i
           = change_spaces ''ab_'' ! (i mod length ''ab_'')"
    using lot_row [OF w t] by blast+
  moreover have "(4::nat) < nat 7" and "(4::nat) mod length ''ab_'' = 1" by simp_all
  ultimately show ?thesis by (simp only: v c) simp
qed

subsection \<open>C8: one element per recognised token\<close>

text \<open>
  C8, as the specification states it: for every list of input tokens, \<open>create_street\<close>
  returns one element per token whose first character is \<open>b\<close>, \<open>p\<close> or \<open>e\<close>. The
  token \<open>b\<close> has such a first character and no parameters: \<open>int\<close> raises on the empty
  field and \<open>create_street\<close> returns nothing.
\<close>

theorem create_street_counterexample:
  "create_street [''b''] [] = Inl ValueError"
  by code_simp

text \<open>
  C8, amended: for every list of tokens that are all well formed, \<open>create_street\<close> returns
  the accumulator followed by exactly one element per token whose first character is
  \<open>b\<close>, \<open>p\<close> or \<open>e\<close> (a Building, a Park or an EmptyLot respectively, the one that
  token parses to alone), in the order of the tokens; every other token adds nothing. If
  some token is not well formed, \<open>create_street\<close> raises.
\<close>

theorem create_street_tokens:
  "(list_all well_formed parts \<longrightarrow>
      (\<exists>es. create_street parts parts_list = Inr (parts_list @ es)
         \<and> map kind es = map hd (filter recognized parts)
         \<and> list_all2 (\<lambda>e tok. create_street [tok] [] = Inr [e]) es
              (filter recognized parts)))
   \<and> (\<not> list_all well_formed parts \<longrightarrow> (\<exists>e. create_street parts parts_list = Inl e))"
  using create_street_well_formed [of parts parts_list]
        create_street_ill_formed [of parts parts_list]
  by blast

theorem create_street_tokens_witness:
  "list_all well_formed [''b_4,3,#'', ''x9'', ''p_5,*'']
   \<and> (\<exists>es. create_street [''b_4,3,#'', ''x9'', ''p_5,*''] [] = Inr es \<and> map kind es = ''bp'')
   \<and> \<not> list_all well_formed [''b_4,3'']
   \<and> (\<exists>e. create_street [''b_4,3''] [] = Inl e)"
proof -
  have wf: "list_all well_formed [''b_4,3,#'', ''x9'', ''p_5,*'']" by code_simp
  have ks: "map hd (filter recognized [''b_4,3,#'', ''x9'', ''p_5,*'']) = ''bp''" by code_simp
  have ill: "\<not> list_all well_formed [''b_4,3'']" by code_simp
  have "\<exists>es. create_street [''b_4,3,#'', ''x9'', ''p_5,*''] [] = Inr es \<and> map kind es = ''bp''"
    using create_street_tokens [of "[''b_4,3,#'', ''x9'', ''p_5,*'']" "[]"] wf ks by auto
  moreover have "\<exists>e. create_street [''b_4,3''] [] = Inl e"
    using create_street_tokens [of "[''b_4,3'']" "[]"] ill by blast
  ultimately show ?thesis using wf ill by blast
qed

subsection \<open>C9: an empty trash pattern\<close>

text \<open>
  C9: for every EmptyLot of width at least 1 whose pattern is empty, \<open>at_height 1\<close> ends
  in the division by the pattern's length, zero, and raises instead of returning a row; the
  token \<open>e_<width>,\<close> parses to that lot.
\<close>

theorem empty_trash_fails:
  "1 \<le> w \<Longrightarrow>
     at_height (EmptyLot w []) 1 = Some (Inl ZeroDivisionError)
     \<and> create_street [''e_'' @ decimal (nat w) @ '',''] [] = Inr [EmptyLot w []]"
  using empty_trash_token [of "nat w"] by (simp add: trash_to_width_def)

theorem empty_trash_fails_witness:
  "at_height (EmptyLot 3 []) 1 = Some (Inl ZeroDivisionError)
   \<and> create_street [''e_3,''] [] = Inr [EmptyLot 3 []]"
proof -
  have d: "decimal (nat 3) = ''3''" by code_simp
  have w: "1 \<le> (3::int)" by simp
  show ?thesis using empty_trash_fails [OF w] by (simp only: d) simp
qed

subsection \<open>C10: the second character of a token\<close>

text \<open>
  C10: \<open>create_street\<close> never reads the second character of a token: two tokens that
  differ only there give the same result, for every first character (so for \<open>b\<close>, \<open>p\<close>
  and \<open>e\<close>), with any remaining tokens and any accumulator.
\<close>

theorem second_character_unread:
  "create_street ((t # c1 # s) # parts) parts_list
     = create_street ((t # c2 # s) # parts) parts_list"
  by (simp add: item_def)

end
